theory Spec2Isabelle
  imports Complex_Main "HOL-Library.Word" "HOL-Library.Log_Nat"
begin

section \<open>JavaScript values\<close>

text \<open>
  The reader is JavaScript: every number is an IEEE double, a missing array element or a
  function that falls off its end yields \<open>undefined\<close>, and a property read on
  \<open>undefined\<close> throws a TypeError. All table entries come from 32-bit unsigned reads.
  On integers below \<open>2 ^ 53\<close> the double operations used by the tracks (addition,
  subtraction, multiplication, comparison, \<open>%\<close>, \<open>Math.floor\<close> of a quotient) are exact,
  and a quotient of two such integers is an integer exactly when the division is exact, so
  the finite numbers of sizes, offsets and chunks are modelled by exact rationals; the
  non-finite results of a division by zero are kept as values of their own. The times of
  \<open>timeToSample\<close> go beyond that range and are rounded as doubles are (see Doubles).
\<close>

datatype jsval = Num rat | Infinity | NaN | Undefined

text \<open>
  How a call can end without returning: \<open>TypeError\<close> is the exception JavaScript throws
  for a property read on \<open>undefined\<close>; nothing in the reader catches it. The other two
  mark the border of this development. \<open>OutsideBuffer\<close>: the byte cursor was asked for
  bytes beyond its buffer, which its contract does not cover. \<open>NotEmbedded\<close>: a case
  of \<open>readBox\<close> that is not translated here.
\<close>

datatype failure = TypeError | OutsideBuffer | NotEmbedded

text \<open>The console: the messages passed to \<open>console.error\<close>, oldest first. A call of
  \<open>assert\<close> with one argument logs \<open>undefined\<close>, which is \<open>None\<close> here.\<close>

type_synonym console = "string option list"

text \<open>\<open>function assert(condition, message) { if (!condition) { console.error(message); } }\<close>\<close>

definition assert :: "bool \<Rightarrow> string option \<Rightarrow> console \<Rightarrow> console" where
  "assert condition message con = (if \<not> condition then con @ [message] else con)"

text \<open>\<open>a / b\<close> for non-negative integers \<open>a\<close>, \<open>b\<close>.\<close>

definition js_div :: "nat \<Rightarrow> nat \<Rightarrow> jsval" where
  "js_div a b = (if b = 0 then (if a = 0 then NaN else Infinity)
                 else Num (of_nat a / of_nat b))"

text \<open>\<open>a % b\<close> for non-negative integers \<open>a\<close>, \<open>b\<close>.\<close>

definition js_mod :: "nat \<Rightarrow> nat \<Rightarrow> jsval" where
  "js_mod a b = (if b = 0 then NaN else Num (of_nat (a mod b)))"

text \<open>\<open>Math.floor(v)\<close>.\<close>

fun js_floor :: "jsval \<Rightarrow> jsval" where
  "js_floor (Num q) = Num (of_int \<lfloor>q\<rfloor>)"
| "js_floor Infinity = Infinity"
| "js_floor NaN = NaN"
| "js_floor Undefined = NaN"

text \<open>\<open>a + b\<close> on numbers and \<open>undefined\<close> (which converts to NaN).\<close>

fun js_add :: "jsval \<Rightarrow> jsval \<Rightarrow> jsval" where
  "js_add (Num a) (Num b) = Num (a + b)"
| "js_add (Num a) Infinity = Infinity"
| "js_add Infinity (Num b) = Infinity"
| "js_add Infinity Infinity = Infinity"
| "js_add _ _ = NaN"

text \<open>\<open>table[i]\<close> for an integer \<open>i\<close>: \<open>undefined\<close> at a negative index and beyond the
  end.\<close>

definition js_at :: "nat list \<Rightarrow> int \<Rightarrow> jsval" where
  "js_at table i =
     (if 0 \<le> i \<and> i < int (length table) then Num (of_nat (table ! nat i)) else Undefined)"

text \<open>\<open>table[v]\<close> for any value: the element when \<open>v\<close> is an integer index inside the
  array, \<open>undefined\<close> otherwise (also for a fractional, non-finite or undefined index).\<close>

fun js_index :: "nat list \<Rightarrow> jsval \<Rightarrow> jsval" where
  "js_index table (Num q) =
     (if 0 \<le> q \<and> of_int \<lfloor>q\<rfloor> = q then js_at table \<lfloor>q\<rfloor> else Undefined)"
| "js_index table _ = Undefined"

section \<open>Doubles\<close>

text \<open>
  In \<open>timeToSample\<close> the product of two 32-bit table entries can pass \<open>2 ^ 53\<close>, where
  a double no longer holds every integer, and the time it is compared with can be as
  large. The arithmetic of that function is therefore modelled with the rounding of
  doubles: \<open>js_round q\<close> is the double nearest to a positive rational \<open>q\<close>, a tie going
  to the even one of the two neighbours; it is 0 for 0, and negative numbers do not arise. \<open>js_exponent q\<close> is the binary exponent of
  \<open>q\<close>, the \<open>e\<close> with \<open>2 ^ e \<le> q < 2 ^ (e + 1)\<close>, found from the bit lengths of numerator
  and denominator; the 53-bit significand is \<open>q\<close> in units of \<open>2 ^ (e - 52)\<close>. The
  exponent range of doubles is left out (no overflow to Infinity, no subnormal numbers):
  with 32-bit table entries every nonzero value here lies between \<open>2 ^ -32\<close> and the
  larger of \<open>2 ^ 64\<close> and the time passed in.
\<close>

definition js_exponent :: "rat \<Rightarrow> int" where
  "js_exponent q =
     (let (a, b) = quotient_of q; e = bitlen a - bitlen b
      in if 2 powi e \<le> q then e else e - 1)"

definition js_round :: "rat \<Rightarrow> rat" where
  "js_round q =
     (if q \<le> 0 then 0
      else let u = 2 powi (js_exponent q - 52);
               f = \<lfloor>q / u\<rfloor>;
               r = q / u - of_int f
           in (if r < 1 / 2 \<or> (r = 1 / 2 \<and> even f) then of_int f else of_int (f + 1)) * u)"

text \<open>The double nearest to a natural number; it is a natural number again.\<close>

definition js_nat :: "nat \<Rightarrow> nat" where
  "js_nat n = nat \<lfloor>js_round (of_nat n)\<rfloor>"

section \<open>The byte cursor\<close>

text \<open>
  Modelled from the spec: the byte cursor \<open>ByteStream\<close>, whose source file is missing,
  a positioned reader over a fixed byte buffer. Each of its operations below follows the
  specification of the cursor; a request that leaves the buffer ends in
  \<open>OutsideBuffer\<close>.
\<close>

record stream =
  bytes :: "8 word list"
  position :: nat

text \<open>Sequencing of cursor operations: the first failure ends the chain.\<close>

definition andThen ::
  "failure + ('a \<times> stream) \<Rightarrow> ('a \<Rightarrow> stream \<Rightarrow> failure + 'b) \<Rightarrow> failure + 'b" where
  "andThen r f = (case r of Inl e \<Rightarrow> Inl e | Inr (v, s) \<Rightarrow> f v s)"

text \<open>Modelled from the spec: the value of a big-endian run of bytes, the encoding of
  every fixed-width integer read (\<open>ByteStream\<close> is missing from the sources).\<close>

definition be_nat :: "8 word list \<Rightarrow> nat" where
  "be_nat bs = foldl (\<lambda>v b. 256 * v + unat b) 0 bs"

text \<open>Modelled from the spec: \<open>readU8Array(n)\<close>, the bounded byte-array read of the
  missing \<open>ByteStream\<close>: the next \<open>n\<close> bytes, the position moved past them.\<close>

definition readU8Array :: "nat \<Rightarrow> stream \<Rightarrow> failure + (8 word list \<times> stream)" where
  "readU8Array n s =
     (if position s + n \<le> length (bytes s)
      then Inr (take n (drop (position s) (bytes s)), s\<lparr>position := position s + n\<rparr>)
      else Inl OutsideBuffer)"

text \<open>Modelled from the spec: \<open>skip(n)\<close> of the missing \<open>ByteStream\<close> moves the position
  forward by \<open>n\<close> bytes.\<close>

definition skip :: "nat \<Rightarrow> stream \<Rightarrow> failure + (unit \<times> stream)" where
  "skip n s = andThen (readU8Array n s) (\<lambda>bs s. Inr ((), s))"

text \<open>Modelled from the spec: the fixed-width big-endian integer reads \<open>readU8\<close>,
  \<open>readU16\<close>, \<open>readU24\<close> and \<open>readU32\<close> of the missing \<open>ByteStream\<close>.\<close>

definition readUN :: "nat \<Rightarrow> stream \<Rightarrow> failure + (nat \<times> stream)" where
  "readUN n s = andThen (readU8Array n s) (\<lambda>bs s. Inr (be_nat bs, s))"

definition readU8 :: "stream \<Rightarrow> failure + (nat \<times> stream)" where
  "readU8 = readUN 1"

definition readU16 :: "stream \<Rightarrow> failure + (nat \<times> stream)" where
  "readU16 = readUN 2"

definition readU24 :: "stream \<Rightarrow> failure + (nat \<times> stream)" where
  "readU24 = readUN 3"

definition readU32 :: "stream \<Rightarrow> failure + (nat \<times> stream)" where
  "readU32 = readUN 4"

text \<open>Modelled from the spec: the fixed-point reads \<open>readFP8\<close> (8.8) and \<open>readFP16\<close>
  (16.16) of the missing \<open>ByteStream\<close>.\<close>

definition readFP8 :: "stream \<Rightarrow> failure + (rat \<times> stream)" where
  "readFP8 s = andThen (readU16 s) (\<lambda>v s. Inr (of_nat v / 256, s))"

definition readFP16 :: "stream \<Rightarrow> failure + (rat \<times> stream)" where
  "readFP16 s = andThen (readU32 s) (\<lambda>v s. Inr (of_nat v / 65536, s))"

text \<open>Modelled from the spec: \<open>read4CC\<close> of the missing \<open>ByteStream\<close>, the next four
  bytes as a four-character code.\<close>

definition read4CC :: "stream \<Rightarrow> failure + (string \<times> stream)" where
  "read4CC s = andThen (readU8Array 4 s) (\<lambda>bs s. Inr (map (\<lambda>b. char_of (unat b)) bs, s))"

text \<open>Modelled from the spec: \<open>readU32Array(n)\<close> of the missing \<open>ByteStream\<close>, without
  the optional grouping: \<open>n\<close> consecutive 32-bit reads.\<close>

definition readU32Array :: "nat \<Rightarrow> stream \<Rightarrow> failure + (nat list \<times> stream)" where
  "readU32Array n s =
     (if position s + 4 * n \<le> length (bytes s)
      then Inr (map (\<lambda>k. be_nat (take 4 (drop (position s + 4 * k) (bytes s)))) [0..<n],
                s\<lparr>position := position s + 4 * n\<rparr>)
      else Inl OutsideBuffer)"

text \<open>\<open>bytes.subarray(begin, end)\<close> of a typed array, for \<open>begin \<le> end\<close>: both ends are
  clamped to the array.\<close>

definition subarray :: "8 word list \<Rightarrow> nat \<Rightarrow> nat \<Rightarrow> 8 word list" where
  "subarray bs begin fin = take (fin - begin) (drop begin bs)"

section \<open>The box parser\<close>

text \<open>
  A box is a JavaScript object that \<open>readBox\<close> fills field by field. The two kinds of box
  translated here are records; every field carries the type of its box as a prefix (\<open>box.trackId\<close> of a
  \<open>tkhd\<close> box is \<open>tkhd_trackId\<close>), field names being global. The \<open>table\<close> of an
  \<open>stsz\<close> box is \<open>None\<close> when the parser never sets the property.
\<close>

record tkhd =
  tkhd_offset :: nat
  tkhd_size :: nat
  tkhd_type :: string
  tkhd_name :: string
  tkhd_version :: nat
  tkhd_flags :: nat
  tkhd_creationTime :: nat
  tkhd_modificationTime :: nat
  tkhd_trackId :: nat
  tkhd_duration :: nat
  tkhd_layer :: nat
  tkhd_alternateGroup :: nat
  tkhd_volume :: rat
  tkhd_matrix :: "nat list"
  tkhd_width :: rat
  tkhd_height :: rat

record stsz =
  stsz_offset :: nat
  stsz_size :: nat
  stsz_type :: string
  stsz_name :: string
  stsz_version :: nat
  stsz_flags :: nat
  stsz_sampleSize :: nat
  stsz_table :: "nat list option"

datatype box = Tkhd tkhd | Stsz stsz

text \<open>\<open>readFullHeader\<close>: the version byte and the 24-bit flags.\<close>

definition readFullHeader :: "stream \<Rightarrow> failure + ((nat \<times> nat) \<times> stream)" where
  "readFullHeader stream =
     andThen (readU8 stream) (\<lambda>version stream.
     andThen (readU24 stream) (\<lambda>flags stream.
     Inr ((version, flags), stream)))"

text \<open>The \<open>case 'tkhd'\<close> of \<open>readBox\<close>, after \<open>readHeader\<close> has set \<open>size\<close> and
  \<open>type\<close>. The \<open>assert\<close> on the version only writes to the console.\<close>

definition readBox_tkhd ::
  "nat \<Rightarrow> nat \<Rightarrow> string \<Rightarrow> stream \<Rightarrow> console \<Rightarrow> failure + (box \<times> stream \<times> console)" where
  "readBox_tkhd b_offset b_size b_type stream con =
     andThen (readFullHeader stream) (\<lambda>(version, flags) stream.
     let con = assert (version = 0) None con in
     andThen (readU32 stream) (\<lambda>creationTime stream.
     andThen (readU32 stream) (\<lambda>modificationTime stream.
     andThen (readU32 stream) (\<lambda>trackId stream.
     andThen (skip 4 stream) (\<lambda>_ stream.
     andThen (readU32 stream) (\<lambda>duration stream.
     andThen (skip 8 stream) (\<lambda>_ stream.
     andThen (readU16 stream) (\<lambda>layer stream.
     andThen (readU16 stream) (\<lambda>alternateGroup stream.
     andThen (readFP8 stream) (\<lambda>volume stream.
     andThen (skip 2 stream) (\<lambda>_ stream.
     andThen (readU32Array 9 stream) (\<lambda>matrix stream.
     andThen (readFP16 stream) (\<lambda>width stream.
     andThen (readFP16 stream) (\<lambda>height stream.
     Inr (Tkhd \<lparr>tkhd_offset = b_offset, tkhd_size = b_size, tkhd_type = b_type,
                 tkhd_name = ''Track Header Box'', tkhd_version = version, tkhd_flags = flags,
                 tkhd_creationTime = creationTime, tkhd_modificationTime = modificationTime,
                 tkhd_trackId = trackId, tkhd_duration = duration, tkhd_layer = layer,
                 tkhd_alternateGroup = alternateGroup, tkhd_volume = volume, tkhd_matrix = matrix,
                 tkhd_width = width, tkhd_height = height\<rparr>,
          stream, con)))))))))))))))"

text \<open>The \<open>case 'stsz'\<close> of \<open>readBox\<close>: the count is read into a local variable and the
  table only when the uniform size is zero.\<close>

definition readBox_stsz ::
  "nat \<Rightarrow> nat \<Rightarrow> string \<Rightarrow> stream \<Rightarrow> console \<Rightarrow> failure + (box \<times> stream \<times> console)" where
  "readBox_stsz b_offset b_size b_type stream con =
     andThen (readFullHeader stream) (\<lambda>(version, flags) stream.
     andThen (readU32 stream) (\<lambda>sampleSize stream.
     andThen (readU32 stream) (\<lambda>count stream.
     if sampleSize = 0 then
       andThen (readU32Array count stream) (\<lambda>table stream.
       Inr (Stsz \<lparr>stsz_offset = b_offset, stsz_size = b_size, stsz_type = b_type,
                   stsz_name = ''Sample Size Box'', stsz_version = version,
                   stsz_flags = flags, stsz_sampleSize = sampleSize, stsz_table = Some table\<rparr>,
            stream, con))
     else
       Inr (Stsz \<lparr>stsz_offset = b_offset, stsz_size = b_size, stsz_type = b_type,
                   stsz_name = ''Sample Size Box'', stsz_version = version,
                   stsz_flags = flags, stsz_sampleSize = sampleSize, stsz_table = None\<rparr>,
            stream, con))))"

text \<open>\<open>readBox\<close>: the header (\<open>readHeader\<close>: size, then type), then the \<open>switch\<close> on the
  type. Only the two cases above are translated.\<close>

definition readBox :: "stream \<Rightarrow> console \<Rightarrow> failure + (box \<times> stream \<times> console)" where
  "readBox stream con =
     (let b_offset = position stream in
      andThen (readU32 stream) (\<lambda>b_size stream.
      andThen (read4CC stream) (\<lambda>b_type stream.
      if b_type = ''tkhd'' then readBox_tkhd b_offset b_size b_type stream con
      else if b_type = ''stsz'' then readBox_stsz b_offset b_size b_type stream con
      else Inl NotEmbedded)))"

section \<open>Sample tables and tracks\<close>

text \<open>Rows of the \<open>stsc\<close> and \<open>stts\<close> tables, as \<open>readU32Array\<close> builds them from
  the field names the parser passes.\<close>

record stsc_row =
  firstChunk :: nat
  samplesPerChunk :: nat
  sampleDescriptionId :: nat

record stts_row =
  count :: nat
  delta :: nat

text \<open>The result object \<open>{index: ..., offset: ...}\<close> of \<open>sampleToChunk\<close>.\<close>

record chunkpos =
  index :: jsval
  offset :: jsval

subsection \<open>sampleToChunk\<close>

text \<open>
  The body of the \<open>for\<close> loop of \<open>sampleToChunk\<close> for \<open>i > 0\<close>: \<open>previousRow\<close> is
  \<open>table[i - 1]\<close>, the list holds \<open>table[i]\<close> and the rows after it, so that an
  empty rest after the head is \<open>i == table.length - 1\<close>. The loop falls through
  (\<open>None\<close>) when no row is left.
\<close>

fun sampleToChunk_rows :: "stsc_row \<Rightarrow> stsc_row list \<Rightarrow> nat \<Rightarrow> int \<Rightarrow> chunkpos option" where
  "sampleToChunk_rows previousRow [] sample totalChunkCount = None"
| "sampleToChunk_rows previousRow (row # rest) sample totalChunkCount =
     (let previousChunkCount = int (firstChunk row) - int (firstChunk previousRow);
          previousSampleCount = int (samplesPerChunk previousRow) * previousChunkCount
      in if int sample \<ge> previousSampleCount then
           (let sample' = nat (int sample - previousSampleCount)
            in if rest = [] then
                 Some \<lparr>index = js_add (Num (of_int (totalChunkCount + previousChunkCount)))
                                      (js_floor (js_div sample' (samplesPerChunk row))),
                       offset = js_mod sample' (samplesPerChunk row)\<rparr>
               else sampleToChunk_rows row rest sample' (totalChunkCount + previousChunkCount))
         else
           Some \<lparr>index = js_add (Num (of_int totalChunkCount))
                                (js_floor (js_div sample (samplesPerChunk previousRow))),
                 offset = js_mod sample (samplesPerChunk previousRow)\<rparr>)"

text \<open>
  \<open>sampleToChunk(sample)\<close> on the \<open>stsc\<close> table: the single-row path, then the loop
  (whose first round, \<open>i = 0\<close>, does nothing), then \<open>assert(false)\<close> and the implicit
  \<open>undefined\<close> (\<open>None\<close>) when the loop ends without a \<open>return\<close>. The second
  component is what the call logged.
\<close>

definition sampleToChunk :: "stsc_row list \<Rightarrow> nat \<Rightarrow> chunkpos option \<times> console" where
  "sampleToChunk table sample =
     (case table of
        [row] \<Rightarrow>
          (Some \<lparr>index = js_div sample (samplesPerChunk row),
                 offset = js_mod sample (samplesPerChunk row)\<rparr>,
           assert (firstChunk row = 1) None [])
      | [] \<Rightarrow> (None, assert False None [])
      | row0 # rest \<Rightarrow>
          (case sampleToChunk_rows row0 rest sample 0 of
             Some res \<Rightarrow> (Some res, [])
           | None \<Rightarrow> (None, assert False None [])))"

text \<open>The table of the comment in \<open>sampleToChunk\<close>.\<close>

definition stsc_example :: "stsc_row list" where
  "stsc_example =
     [\<lparr>firstChunk = 1, samplesPerChunk = 3, sampleDescriptionId = 23\<rparr>,
      \<lparr>firstChunk = 3, samplesPerChunk = 1, sampleDescriptionId = 23\<rparr>,
      \<lparr>firstChunk = 5, samplesPerChunk = 1, sampleDescriptionId = 24\<rparr>]"

subsection \<open>The track\<close>

text \<open>
  A \<open>Track\<close> holds the file object and its \<open>trak\<close> box. Of the file it uses
  \<open>file.stream.bytes\<close>, of the box the parsed \<open>stsz\<close> box and the tables of \<open>stsc\<close>,
  \<open>stco\<close> and \<open>stts\<close> under \<open>trak.mdia.minf.stbl\<close>, and the \<open>mdhd\<close> header fields.
  The sample indices, lengths and times that callers pass to a track are natural numbers.
\<close>

record track =
  file_stream_bytes :: "8 word list"
  trak_stsz :: stsz
  stsc_table :: "stsc_row list"
  stco_table :: "nat list"
  stts_table :: "stts_row list"
  mdhd_duration :: nat
  mdhd_timeScale :: nat

definition PARANOID :: bool where
  "PARANOID = True"

definition getSampleSizeTable :: "track \<Rightarrow> nat list option" where
  "getSampleSizeTable t = stsz_table (trak_stsz t)"

text \<open>\<open>this.getSampleSizeTable().length\<close>: a TypeError when the table is undefined.\<close>

definition getSampleCount :: "track \<Rightarrow> failure + nat" where
  "getSampleCount t =
     (case getSampleSizeTable t of None \<Rightarrow> Inl TypeError | Some table \<Rightarrow> Inr (length table))"

text \<open>The loop of \<open>sampleToSize\<close>, \<open>n\<close> rounds from index \<open>i\<close>:
  \<open>size += table[i]\<close>.\<close>

fun sampleToSize_loop :: "nat list \<Rightarrow> int \<Rightarrow> nat \<Rightarrow> jsval \<Rightarrow> jsval" where
  "sampleToSize_loop table i 0 size' = size'"
| "sampleToSize_loop table i (Suc n) size' =
     sampleToSize_loop table (i + 1) n (js_add size' (js_at table i))"

text \<open>\<open>sampleToSize(start, length)\<close>: the loop runs \<open>length\<close> times; its first round
  reads \<open>table[start]\<close>, a TypeError when the table is undefined. The start is an
  integer: \<open>sampleToOffset\<close> can pass a negative one.\<close>

definition sampleToSize :: "track \<Rightarrow> int \<Rightarrow> nat \<Rightarrow> failure + jsval" where
  "sampleToSize t start len =
     (if len = 0 then Inr (Num 0)
      else case getSampleSizeTable t of
             None \<Rightarrow> Inl TypeError
           | Some table \<Rightarrow> Inr (sampleToSize_loop table start len (Num 0)))"

definition chunkToOffset :: "track \<Rightarrow> jsval \<Rightarrow> jsval" where
  "chunkToOffset t chunk = js_index (stco_table t) chunk"

text \<open>
  \<open>sampleToOffset(sample)\<close>. Reading \<open>res.index\<close> throws when \<open>sampleToChunk\<close> returned
  \<open>undefined\<close>. \<open>res.offset\<close> is a remainder \<open>k\<close>, or NaN. The start
  \<open>sample - k\<close> is negative when the walk over the rows has raised the sample it takes
  the remainder of (a row whose firstChunk is below that of the row before). With NaN
  both arguments of \<open>sampleToSize\<close> are NaN, its loop condition is false and it returns 0
  without touching the table.
\<close>

definition sampleToOffset :: "track \<Rightarrow> nat \<Rightarrow> (failure + jsval) \<times> console" where
  "sampleToOffset t sample =
     (case sampleToChunk (stsc_table t) sample of
        (None, con) \<Rightarrow> (Inl TypeError, con)
      | (Some res, con) \<Rightarrow>
          (let off = chunkToOffset t (index res) in
           case offset res of
             Num k \<Rightarrow>
               (case sampleToSize t (int sample - \<lfloor>k\<rfloor>) (nat \<lfloor>k\<rfloor>) of
                  Inl e \<Rightarrow> (Inl e, con)
                | Inr sz \<Rightarrow> (Inr (js_add off sz), con))
           | _ \<Rightarrow> (Inr (js_add off (Num 0)), con)))"

subsection \<open>timeToSample and getTotalTime\<close>

text \<open>
  The loop of \<open>timeToSample\<close> over the rows that are left; falling off the end of the
  table, the function returns \<open>undefined\<close>. Every product, difference and sum is the
  double nearest to the exact result, and so is the quotient that \<open>Math.floor\<close> takes;
  the comparison of two doubles is exact. A division by a zero delta gives NaN or
  Infinity.
\<close>

fun timeToSample_loop :: "stts_row list \<Rightarrow> nat \<Rightarrow> nat \<Rightarrow> jsval" where
  "timeToSample_loop [] time sample = Undefined"
| "timeToSample_loop (row # rest) time sample =
     (let d = js_nat (count row * delta row)
      in if time \<ge> d then
           timeToSample_loop rest (js_nat (time - d)) (js_nat (sample + count row))
         else if delta row = 0 then
           js_add (Num (of_nat sample)) (js_floor (js_div time 0))
         else
           Num (of_nat (js_nat
             (sample + nat \<lfloor>js_round (of_nat time / of_nat (delta row))\<rfloor>))))"

text \<open>\<open>timeToSample(time)\<close>. The time is a double: the one nearest to the number given.\<close>

definition timeToSample :: "track \<Rightarrow> nat \<Rightarrow> jsval" where
  "timeToSample t time = timeToSample_loop (stts_table t) (js_nat time) 0"

text \<open>The loop of \<open>getTotalTime\<close>: \<open>duration += table[i].count * table[i].delta\<close>. The
  sum is kept exact: it is only compared with \<open>mdhd.duration\<close>, a 32-bit value, which the
  sum of doubles equals exactly when the exact sum does.\<close>

fun getTotalTime_loop :: "stts_row list \<Rightarrow> nat \<Rightarrow> nat" where
  "getTotalTime_loop [] duration = duration"
| "getTotalTime_loop (row # rest) duration =
     getTotalTime_loop rest (duration + count row * delta row)"

text \<open>\<open>getTotalTime()\<close>: the value returned and what the call logged.\<close>

definition getTotalTime :: "track \<Rightarrow> nat \<times> console" where
  "getTotalTime t =
     (let con = (if PARANOID
                 then assert (mdhd_duration t = getTotalTime_loop (stts_table t) 0) None []
                 else [])
      in (mdhd_duration t, con))"

subsection \<open>getSampleNALUnits\<close>

text \<open>
  The \<open>while\<close> loop of \<open>getSampleNALUnits\<close> on its variables \<open>offset\<close> and
  \<open>nalUnits\<close>; it returns both when it ends. Each round builds a cursor at \<open>offset\<close>,
  reads the 32-bit length and pushes the slice that follows.
\<close>

function getSampleNALUnits_loop ::
  "8 word list \<Rightarrow> nat \<Rightarrow> nat \<Rightarrow> 8 word list list \<Rightarrow> failure + (8 word list list \<times> nat)" where
  "getSampleNALUnits_loop bs fin off nalUnits =
     (if int fin - int off > 0 then
        (case readU32 \<lparr>bytes = bs, position = off\<rparr> of
           Inl e \<Rightarrow> Inl e
         | Inr (len, _) \<Rightarrow>
             getSampleNALUnits_loop bs fin (off + len + 4)
               (nalUnits @ [subarray bs (off + 4) (off + len + 4)]))
      else Inr (nalUnits, off))"
  by pat_completeness auto
termination
  by (relation "measure (\<lambda>(bs, fin, off, nalUnits). fin - off)") auto

declare getSampleNALUnits_loop.simps [simp del]

text \<open>
  The variables of that loop after \<open>k\<close> further rounds, from the state \<open>(off, nalUnits)\<close>:
  \<open>None\<close> when the loop has ended before, or the cursor has left the buffer.
\<close>

fun getSampleNALUnits_rounds ::
  "8 word list \<Rightarrow> nat \<Rightarrow> nat \<Rightarrow> nat \<times> 8 word list list \<Rightarrow> (nat \<times> 8 word list list) option" where
  "getSampleNALUnits_rounds bs fin 0 st = Some st"
| "getSampleNALUnits_rounds bs fin (Suc k) (off, nalUnits) =
     (if int fin - int off > 0 then
        (case readU32 \<lparr>bytes = bs, position = off\<rparr> of
           Inl e \<Rightarrow> None
         | Inr (len, _) \<Rightarrow>
             getSampleNALUnits_rounds bs fin k
               (off + len + 4, nalUnits @ [subarray bs (off + 4) (off + len + 4)]))
      else None)"

text \<open>
  \<open>getSampleNALUnits(sample)\<close>. The start and the end of the sample are sums of table
  entries, or NaN once a table was read out of range; with NaN the loop condition is
  false and the empty array is returned.
\<close>

definition getSampleNALUnits :: "track \<Rightarrow> nat \<Rightarrow> (failure + 8 word list list) \<times> console" where
  "getSampleNALUnits t sample =
     (case sampleToOffset t sample of
        (Inl e, con) \<Rightarrow> (Inl e, con)
      | (Inr off, con) \<Rightarrow>
          (case sampleToSize t (int sample) 1 of
             Inl e \<Rightarrow> (Inl e, con)
           | Inr sz \<Rightarrow>
               (case (off, js_add off sz) of
                  (Num a, Num b) \<Rightarrow>
                    (case getSampleNALUnits_loop (file_stream_bytes t) (nat \<lfloor>b\<rfloor>) (nat \<lfloor>a\<rfloor>) [] of
                       Inl e \<Rightarrow> (Inl e, con)
                     | Inr (nalUnits, _) \<Rightarrow> (Inr nalUnits, con))
                | _ \<Rightarrow> (Inr [], con))))"

text \<open>The table of the comment in \<open>timeToSample\<close>.\<close>

definition stts_example :: "stts_row list" where
  "stts_example =
     [\<lparr>count = 4, delta = 3\<rparr>, \<lparr>count = 2, delta = 1\<rparr>, \<lparr>count = 3, delta = 2\<rparr>]"

text \<open>
  A track for the examples: one sample of 11 bytes (two length-prefixed NAL units) that
  starts at byte 3 of the file, one chunk, and the \<open>stts\<close> table above with its
  total of 20 as the declared duration.
\<close>

definition example_track :: track where
  "example_track =
     \<lparr>file_stream_bytes =
        [0xDE, 0xAD, 0xBE, 0, 0, 0, 2, 0xAA, 0xBB, 0, 0, 0, 1, 0xCC, 0xEF],
      trak_stsz = \<lparr>stsz_offset = 0, stsz_size = 24, stsz_type = ''stsz'',
                   stsz_name = ''Sample Size Box'', stsz_version = 0, stsz_flags = 0,
                   stsz_sampleSize = 0, stsz_table = Some [11]\<rparr>,
      stsc_table = [\<lparr>firstChunk = 1, samplesPerChunk = 1, sampleDescriptionId = 1\<rparr>],
      stco_table = [3],
      stts_table = stts_example,
      mdhd_duration = 20,
      mdhd_timeScale = 1\<rparr>"

text \<open>An \<open>stsz\<close> box of 20 bytes with a uniform sample size of 4 and a declared count of
  3 samples: header, version and flags, size, count, and no table.\<close>

definition uniform_stsz_bytes :: "8 word list" where
  "uniform_stsz_bytes =
     [0, 0, 0, 20, 0x73, 0x74, 0x73, 0x7A, 0, 0, 0, 0, 0, 0, 0, 4, 0, 0, 0, 3]"

text \<open>
  A track whose first sample is declared with 11 bytes, while the length prefix of its
  second NAL unit announces 9 bytes where 2 are left; the file goes on with the next
  sample.
\<close>

definition overrun_track :: track where
  "overrun_track =
     \<lparr>file_stream_bytes =
        [0, 0, 0, 1, 0xAA, 0, 0, 0, 9, 0xBB, 0xCC, 0, 0, 0, 3, 0xD1, 0xD2, 0xD3, 0, 0],
      trak_stsz = \<lparr>stsz_offset = 0, stsz_size = 28, stsz_type = ''stsz'',
                   stsz_name = ''Sample Size Box'', stsz_version = 0, stsz_flags = 0,
                   stsz_sampleSize = 0, stsz_table = Some [11, 7]\<rparr>,
      stsc_table = [\<lparr>firstChunk = 1, samplesPerChunk = 1, sampleDescriptionId = 1\<rparr>],
      stco_table = [0, 11],
      stts_table = [\<lparr>count = 2, delta = 1\<rparr>],
      mdhd_duration = 2,
      mdhd_timeScale = 1\<rparr>"

text \<open>
  A \<open>tkhd\<close> box of version 1, 104 bytes: 64-bit creation time, modification time and
  duration. Track id 7 is at bytes 28 to 31, the duration 0x2A at bytes 36 to 43, and
  the box ends with width 640 and height 368.
\<close>

definition tkhd_v1_bytes :: "8 word list" where
  "tkhd_v1_bytes =
     [0, 0, 0, 104, 0x74, 0x6B, 0x68, 0x64,
      1, 0, 0, 1,
      0, 0, 0, 0, 0xC0, 0, 0, 1,
      0, 0, 0, 0, 0xC0, 0, 0, 2,
      0, 0, 0, 7,
      0, 0, 0, 0,
      0, 0, 0, 0, 0, 0, 0, 0x2A,
      0, 0, 0, 0, 0, 0, 0, 0,
      0, 0, 0, 0,
      1, 0, 0, 0,
      0, 1, 0, 0, 0, 0, 0, 0, 0, 0, 0, 0,
      0, 0, 0, 0, 0, 1, 0, 0, 0, 0, 0, 0,
      0, 0, 0, 0, 0, 0, 0, 0, 0x40, 0, 0, 0,
      2, 0x80, 0, 0,
      1, 0x70, 0, 0]"

section \<open>Rounding to doubles\<close>

lemma bitlen_rat_bounds:
  assumes "0 < a"
  shows "(2::rat) powi (bitlen a - 1) \<le> of_int a" and "of_int a < (2::rat) powi bitlen a"
proof -
  from bitlen_bounds [OF assms] have l: "2 ^ nat (bitlen a - 1) \<le> a" and u: "a < 2 ^ nat (bitlen a)"
    by simp_all
  from assms have ge: "1 \<le> bitlen a"
    by (simp add: bitlen_alt_def)
  from l have "(of_int (2 ^ nat (bitlen a - 1)) :: rat) \<le> of_int a"
    by (simp only: of_int_le_iff)
  with ge show "(2::rat) powi (bitlen a - 1) \<le> of_int a"
    by (simp add: power_int_def)
  from u have "(of_int a :: rat) < of_int (2 ^ nat (bitlen a))"
    by (simp only: of_int_less_iff)
  with ge show "of_int a < (2::rat) powi bitlen a"
    by (simp add: power_int_def)
qed

lemma js_exponent_bounds:
  assumes "0 < q"
  shows "2 powi js_exponent q \<le> q" and "q < 2 powi (js_exponent q + 1)"
proof -
  obtain a b where ab: "quotient_of q = (a, b)"
    by (cases "quotient_of q")
  then have b: "0 < b" and q: "q = of_int a / of_int b"
    by (simp_all add: quotient_of_denom_pos quotient_of_div)
  with assms have a: "0 < a"
    by (simp add: zero_less_divide_iff)
  let ?e = "bitlen a - bitlen b"
  note A = bitlen_rat_bounds [OF a] and B = bitlen_rat_bounds [OF b]
  have bpos: "(0::rat) < of_int b" using b by simp
  have ppos: "(0::rat) < 2 powi k" for k by (simp add: zero_less_power_int)
  have "q < 2 powi bitlen a / of_int b"
    using A(2) bpos by (simp add: q divide_strict_right_mono)
  also have "\<dots> \<le> 2 powi bitlen a / 2 powi (bitlen b - 1)"
    by (rule divide_left_mono [OF B(1) less_imp_le [OF ppos] mult_pos_pos [OF bpos ppos]])
  also have "\<dots> = 2 powi (?e + 1)"
    by (simp add: power_int_diff [symmetric] algebra_simps)
  finally have up: "q < 2 powi (?e + 1)" .
  have "2 powi (?e - 1) = 2 powi (bitlen a - 1) / (2::rat) powi bitlen b"
    by (simp add: power_int_diff [symmetric] algebra_simps)
  also have "\<dots> < 2 powi (bitlen a - 1) / of_int b"
    by (rule divide_strict_left_mono [OF B(2) ppos mult_pos_pos [OF ppos bpos]])
  also have "\<dots> \<le> q"
    using A(1) bpos by (simp add: q divide_right_mono)
  finally have lo: "2 powi (?e - 1) < q" .
  have e: "js_exponent q = (if 2 powi ?e \<le> q then ?e else ?e - 1)"
    by (simp add: js_exponent_def ab Let_def)
  show "2 powi js_exponent q \<le> q"
    using lo by (simp add: e)
  show "q < 2 powi (js_exponent q + 1)"
    using up by (auto simp add: e)
qed


lemma js_round_unit:
  assumes "0 < q"
  defines "u \<equiv> 2 powi (js_exponent q - 52)"
  shows "0 < u" and "2 powi js_exponent q = 2 ^ 52 * u" and "2 ^ 52 \<le> q / u" and "q / u < 2 ^ 53"
proof -
  show u: "0 < u" by (simp add: u_def)
  have "js_exponent q = 52 + (js_exponent q - 52)" by simp
  then have "(2::rat) powi js_exponent q = 2 powi (52 + (js_exponent q - 52))"
    by (rule arg_cong)
  also have "\<dots> = 2 powi 52 * u"
    unfolding u_def by (rule power_int_add) simp
  finally show e: "2 powi js_exponent q = 2 ^ 52 * u" by simp
  from js_exponent_bounds(1) [OF assms(1)] e have "2 ^ 52 * u \<le> q" by simp
  with u show "2 ^ 52 \<le> q / u" by (simp add: pos_le_divide_eq)
  have "js_exponent q + 1 = 53 + (js_exponent q - 52)" by simp
  then have "(2::rat) powi (js_exponent q + 1) = 2 powi (53 + (js_exponent q - 52))"
    by (rule arg_cong)
  also have "\<dots> = 2 powi 53 * u"
    unfolding u_def by (rule power_int_add) simp
  finally have "2 powi (js_exponent q + 1) = 2 ^ 53 * u" by simp
  with js_exponent_bounds(2) [OF assms(1)] have "q < 2 ^ 53 * u" by simp
  with u show "q / u < 2 ^ 53" by (simp add: pos_divide_less_eq)
qed

lemma js_round_near:
  assumes "0 < q"
  defines "u \<equiv> 2 powi (js_exponent q - 52)"
  shows "of_int \<lfloor>q / u\<rfloor> * u \<le> js_round q" and "js_round q \<le> q + u / 2"
proof -
  have u: "0 < u" by (simp add: u_def)
  let ?f = "\<lfloor>q / u\<rfloor>"
  let ?r = "q / u - of_int ?f"
  have r: "js_round q = (if ?r < 1 / 2 \<or> (?r = 1 / 2 \<and> even ?f) then of_int ?f else of_int (?f + 1)) * u"
    using assms(1) by (simp add: js_round_def Let_def u_def)
  show "of_int ?f * u \<le> js_round q"
    using u by (simp add: r)
  have down: "of_int ?f * u \<le> q"
    using u by (simp add: pos_le_divide_eq [symmetric])
  have up: "of_int (?f + 1) * u \<le> q + u / 2" if "1 / 2 \<le> ?r"
  proof -
    have "of_int (?f + 1) = of_int ?f + (1::rat)" by simp
    with that have "of_int (?f + 1) \<le> q / u + 1 / 2" by linarith
    then have "of_int (?f + 1) * u \<le> (q / u + 1 / 2) * u"
      using u by (simp only: mult_le_cancel_right_pos)
    also have "\<dots> = q + u / 2"
      using u by (simp add: field_simps)
    finally show ?thesis .
  qed
  show "js_round q \<le> q + u / 2"
  proof (cases "?r < 1 / 2 \<or> (?r = 1 / 2 \<and> even ?f)")
    case True
    have "js_round q = of_int ?f * u"
      unfolding r by (rule arg_cong [where f = "\<lambda>x. x * u"]) (rule if_P [OF True])
    with down u show ?thesis by simp
  next
    case False
    have "js_round q = of_int (?f + 1) * u"
      unfolding r by (rule arg_cong [where f = "\<lambda>x. x * u"]) (rule if_not_P [OF False])
    moreover from False have "1 / 2 \<le> ?r" by linarith
    ultimately show ?thesis using up by (simp only:)
  qed
qed

lemma js_round_exact:
  assumes "0 < q" and "q / 2 powi (js_exponent q - 52) = of_int z"
  shows "js_round q = q"
proof -
  let ?u = "2 powi (js_exponent q - 52) :: rat"
  have u: "0 < ?u" by simp
  have f: "\<lfloor>q / ?u\<rfloor> = z" and r: "q / ?u - of_int z = 0"
    by (simp_all only: assms(2) floor_of_int diff_self)
  have "js_round q = of_int z * ?u"
    using assms(1) by (simp only: js_round_def Let_def f r) simp
  also have "\<dots> = q / ?u * ?u"
    by (simp only: assms(2))
  also have "\<dots> = q"
    using u by simp
  finally show ?thesis .
qed

lemma js_exponent_le:
  assumes "0 < q" and "q < 2 ^ n"
  shows "js_exponent q < int n"
proof (rule ccontr)
  assume "\<not> js_exponent q < int n"
  then have "(2::rat) powi int n \<le> 2 powi js_exponent q"
    by (intro power_int_increasing) simp_all
  with js_exponent_bounds(1) [OF assms(1)] assms(2) show False by simp
qed

lemma js_exponent_ge:
  assumes "2 ^ n \<le> q"
  shows "int n \<le> js_exponent q"
proof (rule ccontr)
  assume "\<not> int n \<le> js_exponent q"
  then have "(2::rat) powi (js_exponent q + 1) \<le> 2 powi int n"
    by (intro power_int_increasing) simp_all
  moreover have "0 < q" using assms by (rule less_le_trans [rotated]) simp
  ultimately show False using js_exponent_bounds(2) [of q] assms by simp
qed


lemma js_round_0: "js_round 0 = 0"
  by (simp add: js_round_def)

lemma js_round_ge_pow2:
  assumes "2 ^ n \<le> q"
  shows "2 ^ n \<le> js_round q"
proof -
  have q: "0 < q" using assms by (rule less_le_trans [rotated]) simp
  let ?u = "2 powi (js_exponent q - 52) :: rat"
  note U = js_round_unit [OF q]
  from U(3) have "2 ^ 52 \<le> \<lfloor>q / ?u\<rfloor>"
    by (simp add: le_floor_iff)
  then have "(2::rat) ^ 52 \<le> of_int \<lfloor>q / ?u\<rfloor>"
    by (metis of_int_le_iff of_int_numeral of_int_power)
  with U(1) have A: "2 ^ 52 * ?u \<le> of_int \<lfloor>q / ?u\<rfloor> * ?u"
    by (simp only: mult_le_cancel_right_pos)
  have "2 powi js_exponent q = 2 ^ 52 * ?u" by (rule U(2))
  also note A
  also note js_round_near(1) [OF q]
  finally have "2 powi js_exponent q \<le> js_round q" .
  moreover have "(2::rat) powi int n \<le> 2 powi js_exponent q"
    using js_exponent_ge [OF assms] by (intro power_int_increasing) simp_all
  ultimately show ?thesis by simp
qed

lemma js_round_small_multiple:
  assumes "0 < q" and "q < 2 ^ 53" and "\<And>k. \<exists>z. q * 2 ^ k = of_int z"
  shows "js_round q = q"
proof -
  from js_exponent_le [OF assms(1,2)] have e: "js_exponent q - 52 \<le> 0" by simp
  define k where "k = nat (52 - js_exponent q)"
  with e have "js_exponent q - 52 = - int k" by simp
  then have "(2::rat) powi (js_exponent q - 52) = 1 / 2 ^ k"
    by (simp add: power_int_minus_divide)
  then have "q / 2 powi (js_exponent q - 52) = q * 2 ^ k" by simp
  with assms(3) [of k] obtain z where "q / 2 powi (js_exponent q - 52) = of_int z" by auto
  with assms(1) show ?thesis by (rule js_round_exact)
qed

lemma js_nat_exact:
  assumes "n < 2 ^ 53"
  shows "js_nat n = n"
proof (cases "n = 0")
  case True
  then show ?thesis by (simp add: js_nat_def js_round_0)
next
  case False
  have "js_round (of_nat n) = of_nat n"
  proof (rule js_round_small_multiple)
    show "(0::rat) < of_nat n" using False by simp
    from assms have "(of_nat n :: rat) < of_nat (2 ^ 53)" by (simp only: of_nat_less_iff)
    then show "(of_nat n :: rat) < 2 ^ 53" by simp
    show "\<exists>z. (of_nat n :: rat) * 2 ^ k = of_int z" for k
      by (rule exI [of _ "int n * 2 ^ k"]) simp
  qed
  then show ?thesis by (simp add: js_nat_def)
qed

lemma js_nat_large:
  assumes "2 ^ 53 \<le> n"
  shows "2 ^ 53 \<le> js_nat n"
proof -
  from assms have "(of_nat (2 ^ 53) :: rat) \<le> of_nat n" by (simp only: of_nat_le_iff)
  then have "(2::rat) ^ 53 \<le> of_nat n" by simp
  then have "(2::rat) ^ 53 \<le> js_round (of_nat n)" by (rule js_round_ge_pow2)
  then have "2 ^ 53 \<le> \<lfloor>js_round (of_nat n)\<rfloor>"
    by (simp add: le_floor_iff)
  then show ?thesis
    by (simp add: js_nat_def le_nat_iff)
qed

lemma js_round_quotient_floor:
  assumes "a < 2 ^ 53" and "0 < b"
  shows "\<lfloor>js_round (of_nat a / of_nat b)\<rfloor> = int (a div b)"
proof (cases "a = 0")
  case True
  then show ?thesis by (simp add: js_round_0)
next
  case False
  let ?q = "of_nat a / of_nat b :: rat"
  let ?u = "2 powi (js_exponent ?q - 52) :: rat"
  let ?n = "a div b"
  have q: "0 < ?q" using False assms(2) by simp
  have bpos: "(0::rat) < of_nat b" using assms(2) by simp
  have a53: "(of_nat a :: rat) < 2 ^ 53"
  proof -
    from assms(1) have "(of_nat a :: rat) < of_nat (2 ^ 53)" by (simp only: of_nat_less_iff)
    then show ?thesis by simp
  qed
  have qa: "?q \<le> of_nat a"
    using assms(2) by (simp add: divide_le_eq mult_le_cancel_left1)
  note U = js_round_unit [OF q]
  \<comment> \<open>the quotient is at least \<open>1 / b\<close> below the next integer\<close>
  have "a < (?n + 1) * b"
    using assms(2) by (metis Suc_eq_plus1 dividend_less_div_times add.commute mult.commute mult_Suc)
  then have "a + 1 \<le> (?n + 1) * b" by simp
  then have "(of_nat (a + 1) :: rat) \<le> of_nat ((?n + 1) * b)" by (simp only: of_nat_le_iff)
  then have "of_nat a + 1 \<le> (of_nat ?n + 1) * (of_nat b :: rat)" by (simp add: algebra_simps)
  then have gap: "?q + 1 / of_nat b \<le> of_nat ?n + 1"
    using bpos by (simp add: field_simps)
  \<comment> \<open>half a unit in the last place is less than \<open>1 / b\<close>\<close>
  from js_exponent_bounds(1) [OF q] U(2) have "2 ^ 52 * ?u \<le> ?q" by simp
  then have "2 ^ 53 * (?u / 2) \<le> ?q" by simp
  then have "?u / 2 \<le> ?q / 2 ^ 53" by (simp add: field_simps)
  also have "\<dots> = of_nat a / 2 ^ 53 / of_nat b" by simp
  also have "\<dots> < 1 / of_nat b"
    using a53 bpos by (intro divide_strict_right_mono) simp_all
  finally have half: "?u / 2 < 1 / of_nat b" .
  from js_round_near(2) [OF q] half gap have upper: "js_round ?q < of_nat ?n + 1" by linarith
  \<comment> \<open>the integer part is a multiple of the unit\<close>
  have lower: "of_nat ?n \<le> js_round ?q"
  proof -
    have "?q < 2 ^ 53" using qa a53 by simp
    from js_exponent_le [OF q this] have e: "js_exponent ?q - 52 \<le> 0" by simp
    define k where "k = nat (52 - js_exponent ?q)"
    with e have "js_exponent ?q - 52 = - int k" by simp
    then have u: "?u = 1 / 2 ^ k" by (simp add: power_int_minus_divide)
    have "of_nat ?n \<le> ?q"
      using bpos by (simp add: le_divide_eq flip: of_nat_mult)
    then have "of_nat ?n * 2 ^ k \<le> ?q * (2 ^ k :: rat)"
      by (rule mult_right_mono) simp
    then have "(of_int (int ?n * 2 ^ k) :: rat) \<le> ?q / ?u" by (simp add: u)
    then have "int ?n * 2 ^ k \<le> \<lfloor>?q / ?u\<rfloor>" by (simp only: le_floor_iff)
    then have "(of_int (int ?n * 2 ^ k) :: rat) \<le> of_int \<lfloor>?q / ?u\<rfloor>" by (simp only: of_int_le_iff)
    then have B: "of_int (int ?n * 2 ^ k) * ?u \<le> of_int \<lfloor>?q / ?u\<rfloor> * ?u"
      using U(1) by (simp only: mult_le_cancel_right_pos)
    have "of_int (int ?n * 2 ^ k) * ?u = (of_nat ?n :: rat)" by (simp add: u)
    then have "(of_nat ?n :: rat) = of_int (int ?n * 2 ^ k) * ?u" by (rule sym)
    also note B
    also note js_round_near(1) [OF q]
    finally show ?thesis .
  qed
  from lower upper show ?thesis
    by (intro floor_unique) simp_all
qed

lemma js_nat_ge:
  assumes "s < 2 ^ 53" and "s \<le> n"
  shows "s \<le> js_nat n"
proof (cases "n < 2 ^ 53")
  case True
  with assms(2) show ?thesis by (simp add: js_nat_exact)
next
  case False
  then have "2 ^ 53 \<le> js_nat n" by (intro js_nat_large) simp
  with assms(1) show ?thesis by simp
qed

lemma js_nat_gt:
  assumes "s < 2 ^ 53" and "s < n"
  shows "s < js_nat n"
proof (cases "n < 2 ^ 53")
  case True
  with assms(2) show ?thesis by (simp add: js_nat_exact)
next
  case False
  then have "2 ^ 53 \<le> js_nat n" by (intro js_nat_large) simp
  with assms(1) show ?thesis by simp
qed

section \<open>Reading inside the buffer\<close>

lemma readU8Array_ok:
  "position s + n \<le> length (bytes s) \<Longrightarrow>
   readU8Array n s = Inr (take n (drop (position s) (bytes s)), s\<lparr>position := position s + n\<rparr>)"
  by (simp add: readU8Array_def)

lemma readUN_ok:
  "position s + n \<le> length (bytes s) \<Longrightarrow>
   readUN n s = Inr (be_nat (take n (drop (position s) (bytes s))), s\<lparr>position := position s + n\<rparr>)"
  by (simp add: readUN_def readU8Array_ok andThen_def)

lemma skip_ok:
  "position s + n \<le> length (bytes s) \<Longrightarrow> skip n s = Inr ((), s\<lparr>position := position s + n\<rparr>)"
  by (simp add: skip_def readU8Array_ok andThen_def)

lemma readU32Array_ok:
  "position s + 4 * n \<le> length (bytes s) \<Longrightarrow>
   readU32Array n s
     = Inr (map (\<lambda>k. be_nat (take 4 (drop (position s + 4 * k) (bytes s)))) [0..<n],
            s\<lparr>position := position s + 4 * n\<rparr>)"
  by (simp add: readU32Array_def)

lemma read4CC_ok:
  "position s + 4 \<le> length (bytes s) \<Longrightarrow>
   read4CC s = Inr (map (\<lambda>b. char_of (unat b)) (take 4 (drop (position s) (bytes s))),
                    s\<lparr>position := position s + 4\<rparr>)"
  by (simp add: read4CC_def readU8Array_ok andThen_def)


lemma readFullHeader_ok:
  "position s + 4 \<le> length (bytes s) \<Longrightarrow>
   readFullHeader s = Inr ((be_nat (take 1 (drop (position s) (bytes s))),
                            be_nat (take 3 (drop (position s + 1) (bytes s)))),
                           s\<lparr>position := position s + 4\<rparr>)"
  by (simp add: readFullHeader_def readU8_def readU24_def readUN_ok andThen_def)



lemma fourcc_chars:
  "char_of (115::nat) = CHR ''s''" "char_of (116::nat) = CHR ''t''"
  "char_of (122::nat) = CHR ''z''" "char_of (107::nat) = CHR ''k''"
  "char_of (104::nat) = CHR ''h''" "char_of (100::nat) = CHR ''d''"
  by (simp_all add: char_of_def bit_0)

lemma upt_0_9: "[0..<9] = [0, 1, 2, 3, 4, 5, 6, 7, 8::nat]"
  by code_simp

section \<open>Chunks\<close>

lemma sampleToChunk_single_row:
  "sampleToChunk [row] s =
     (Some \<lparr>index = js_div s (samplesPerChunk row), offset = js_mod s (samplesPerChunk row)\<rparr>,
      if firstChunk row = 1 then [] else [None])"
  by (simp add: sampleToChunk_def assert_def)

lemma sampleToChunk_single_row_exact:
  assumes "0 < samplesPerChunk row" and "samplesPerChunk row dvd s"
  shows "fst (sampleToChunk [row] s)
         = Some \<lparr>index = Num (of_nat (s div samplesPerChunk row)), offset = Num 0\<rparr>"
proof -
  from assms(2) obtain k where "s = samplesPerChunk row * k" ..
  with assms(1) show ?thesis
    by (simp add: sampleToChunk_def js_div_def js_mod_def)
qed

text \<open>
  C1. With a single \<open>stsc\<close> row (firstChunk 1, two samples per chunk), sample 1 lies in
  chunk 0 at position 1. The single-row path returns the plain quotient \<open>1 / 2\<close> as the
  chunk index, which is not an integer and so not the floor that the rows loop takes;
  the position within the chunk is right.
\<close>

theorem sampleToChunk_single_row_fraction:
  "sampleToChunk [\<lparr>firstChunk = 1, samplesPerChunk = 2, sampleDescriptionId = 1\<rparr>] 1
     = (Some \<lparr>index = Num (1 / 2), offset = Num 1\<rparr>, [])
   \<and> (1 / 2 :: rat) \<notin> \<int>"
  by (simp add: sampleToChunk_def assert_def js_div_def js_mod_def)

text \<open>
  C2. On the three-row table of the source comment, sample 0 is in chunk 0, sample 3 in
  chunk 1 and sample 8 in chunk 4, each at position 0 of its chunk; the last row is
  open-ended: every sample \<open>8 + k\<close> is in chunk \<open>4 + k\<close>, one sample per chunk, and
  nothing is logged.
\<close>

theorem sampleToChunk_example_table:
  "sampleToChunk stsc_example 0 = (Some \<lparr>index = Num 0, offset = Num 0\<rparr>, [])
   \<and> sampleToChunk stsc_example 3 = (Some \<lparr>index = Num 1, offset = Num 0\<rparr>, [])
   \<and> sampleToChunk stsc_example 8 = (Some \<lparr>index = Num 4, offset = Num 0\<rparr>, [])
   \<and> sampleToChunk stsc_example (8 + k)
       = (Some \<lparr>index = Num (of_nat (4 + k)), offset = Num 0\<rparr>, [])"
  by (simp add: sampleToChunk_def stsc_example_def js_div_def js_mod_def Let_def)

section \<open>Time\<close>

lemma getTotalTime_loop_sum:
  "getTotalTime_loop rows d = d + (\<Sum>r\<leftarrow>rows. count r * delta r)"
  by (induction rows arbitrary: d) simp_all

text \<open>
  C4, as the code has it. \<open>getTotalTime\<close> returns the declared \<open>mdhd.duration\<close> of the
  track. The sum of \<open>count * delta\<close> over the \<open>stts\<close> rows is only compared with it: one
  message is logged when they differ, none when they agree, and the call returns in both
  cases.
\<close>

theorem getTotalTime_declared_duration:
  "getTotalTime t =
     (mdhd_duration t,
      if mdhd_duration t = (\<Sum>r\<leftarrow>stts_table t. count r * delta r) then [] else [None])"
  by (simp add: getTotalTime_def PARANOID_def assert_def getTotalTime_loop_sum)

text \<open>
  C4 as stated fails: with the \<open>stts\<close> table of the example, whose rows sum to 20, and a
  declared duration of 21, \<open>getTotalTime\<close> returns 21 and logs the mismatch.
\<close>

theorem getTotalTime_not_the_sum:
  "fst (getTotalTime (example_track\<lparr>mdhd_duration := 21\<rparr>)) = 21
   \<and> (\<Sum>r\<leftarrow>stts_table (example_track\<lparr>mdhd_duration := 21\<rparr>). count r * delta r) = 20
   \<and> snd (getTotalTime (example_track\<lparr>mdhd_duration := 21\<rparr>)) = [None]"
  by (simp add: getTotalTime_def PARANOID_def assert_def example_track_def stts_example_def)

lemma timeToSample_loop_within:
  "(\<Sum>r\<leftarrow>pre. count r * delta r) \<le> time \<Longrightarrow>
   time < (\<Sum>r\<leftarrow>pre. count r * delta r) + count row * delta row \<Longrightarrow>
   time < 2 ^ 53 \<Longrightarrow>
   sample + (\<Sum>r\<leftarrow>pre. count r)
     + (time - (\<Sum>r\<leftarrow>pre. count r * delta r)) div delta row < 2 ^ 53 \<Longrightarrow>
   timeToSample_loop (pre @ row # post) time sample =
     Num (of_nat (sample + (\<Sum>r\<leftarrow>pre. count r)
                  + (time - (\<Sum>r\<leftarrow>pre. count r * delta r)) div delta row))"
proof (induction pre arbitrary: time sample)
  case Nil
  then have lt: "time < count row * delta row" and small: "sample + time div delta row < 2 ^ 53"
    by simp_all
  from lt have pos: "0 < delta row" by (cases "delta row = 0") simp_all
  from Nil.prems(3) lt have "time < js_nat (count row * delta row)" by (rule js_nat_gt)
  moreover have "\<lfloor>js_round (of_nat time / of_nat (delta row))\<rfloor> = int (time div delta row)"
    using Nil.prems(3) pos by (rule js_round_quotient_floor)
  ultimately show ?case
    using pos small by (simp add: js_nat_exact)
next
  case (Cons r pre)
  let ?d = "count r * delta r"
  from Cons.prems have ge: "?d \<le> time" by simp
  with Cons.prems(3) have d: "js_nat ?d = ?d" by (intro js_nat_exact) simp
  from Cons.prems(3) have t: "js_nat (time - ?d) = time - ?d" by (intro js_nat_exact) simp
  from Cons.prems(4) have s: "js_nat (sample + count r) = sample + count r"
    by (intro js_nat_exact) simp
  from Cons.prems have a: "(\<Sum>r\<leftarrow>pre. count r * delta r) \<le> time - ?d" by simp
  from Cons.prems
  have b: "time - ?d < (\<Sum>r\<leftarrow>pre. count r * delta r) + count row * delta row" by simp
  from Cons.prems(3) have c: "time - ?d < 2 ^ 53" by simp
  from Cons.prems(4) have e: "sample + count r + (\<Sum>r\<leftarrow>pre. count r)
      + (time - ?d - (\<Sum>r\<leftarrow>pre. count r * delta r)) div delta row < 2 ^ 53"
    by (simp add: add.assoc)
  have "timeToSample_loop ((r # pre) @ row # post) time sample
        = timeToSample_loop (pre @ row # post) (time - ?d) (sample + count r)"
    using ge by (simp add: d t s)
  also have "\<dots> = Num (of_nat (sample + count r + (\<Sum>r\<leftarrow>pre. count r)
                  + (time - ?d - (\<Sum>r\<leftarrow>pre. count r * delta r)) div delta row))"
    by (rule Cons.IH [OF a b c e])
  finally show ?case by (simp add: add.assoc)
qed

lemma timeToSample_loop_beyond:
  "(\<Sum>r\<leftarrow>rows. count r * delta r) < 2 ^ 53 \<Longrightarrow>
   (\<Sum>r\<leftarrow>rows. count r * delta r) \<le> time \<Longrightarrow>
   timeToSample_loop rows time sample = Undefined"
proof (induction rows arbitrary: time sample)
  case Nil
  then show ?case by simp
next
  case (Cons r rows)
  let ?d = "count r * delta r"
  from Cons.prems have d: "js_nat ?d = ?d" by (intro js_nat_exact) simp
  from Cons.prems have ge: "?d \<le> time" by simp
  from Cons.prems have small: "(\<Sum>r\<leftarrow>rows. count r * delta r) < 2 ^ 53" by simp
  from Cons.prems have "(\<Sum>r\<leftarrow>rows. count r * delta r) \<le> time - ?d" by simp
  with small have "(\<Sum>r\<leftarrow>rows. count r * delta r) \<le> js_nat (time - ?d)" by (rule js_nat_ge)
  with small have "timeToSample_loop rows (js_nat (time - ?d)) (js_nat (sample + count r)) = Undefined"
    by (rule Cons.IH)
  with ge show ?case by (simp add: d)
qed

lemma timeToSample_within:
  assumes "stts_table t = pre @ row # post"
    and "(\<Sum>r\<leftarrow>pre. count r * delta r) \<le> time"
    and "time < (\<Sum>r\<leftarrow>pre. count r * delta r) + count row * delta row"
    and "time < 2 ^ 53"
    and "(\<Sum>r\<leftarrow>pre. count r) + (time - (\<Sum>r\<leftarrow>pre. count r * delta r)) div delta row < 2 ^ 53"
  shows "timeToSample t time
         = Num (of_nat ((\<Sum>r\<leftarrow>pre. count r)
                        + (time - (\<Sum>r\<leftarrow>pre. count r * delta r)) div delta row))"
  using assms timeToSample_loop_within [of pre time row 0 post]
  by (simp add: timeToSample_def js_nat_exact)

lemma js_round_examples:
  "js_round 9007199705687823 = 9007199705687824"
  "js_round 9007199705687824 = 9007199705687824"
  "js_round 18446744065119617025 = 18446744065119617024"
  "js_round 18446744065119617024 = 18446744065119617024"
  by code_simp+

lemma js_nat_examples:
  "js_nat 9007199705687823 = 9007199705687824"
  "js_nat 9007199705687824 = 9007199705687824"
  "js_nat 18446744065119617025 = 18446744065119617024"
  "js_nat 18446744065119617024 = 18446744065119617024"
  by (simp_all add: js_nat_def js_round_examples)

text \<open>
  C5, as the code has it. With the \<open>stts\<close> table of the example, tick 12 is in sample 4,
  tick 19 in sample 8 and tick 0 in sample 0. In general, when a time below \<open>2 ^ 53\<close>
  falls within a row (the rows before it last at most \<open>time\<close>, and \<open>time\<close> is less than
  their total plus the row's \<open>count * delta\<close>), the result is the number of samples of the
  rows before plus the floor of the remaining time over the row's delta, as long as that
  number is below \<open>2 ^ 53\<close>. And tick 0 is in sample 0 whenever the first row has a
  positive duration.
\<close>

theorem timeToSample_within_row:
  "timeToSample (t\<lparr>stts_table := stts_example\<rparr>) 12 = Num 4
   \<and> timeToSample (t\<lparr>stts_table := stts_example\<rparr>) 19 = Num 8
   \<and> timeToSample (t\<lparr>stts_table := stts_example\<rparr>) 0 = Num 0
   \<and> (stts_table t = pre @ row # post
        \<and> (\<Sum>r\<leftarrow>pre. count r * delta r) \<le> time
        \<and> time < (\<Sum>r\<leftarrow>pre. count r * delta r) + count row * delta row
        \<and> time < 2 ^ 53
        \<and> (\<Sum>r\<leftarrow>pre. count r)
            + (time - (\<Sum>r\<leftarrow>pre. count r * delta r)) div delta row < 2 ^ 53
      \<longrightarrow> timeToSample t time
          = Num (of_nat ((\<Sum>r\<leftarrow>pre. count r)
                         + (time - (\<Sum>r\<leftarrow>pre. count r * delta r)) div delta row)))
   \<and> (stts_table t = row0 # post0 \<and> 0 < count row0 * delta row0
      \<longrightarrow> timeToSample t 0 = Num 0)"
proof -
  let ?t = "t\<lparr>stts_table := stts_example\<rparr>"
  let ?r1 = "\<lparr>count = 4, delta = 3\<rparr>" and ?r2 = "\<lparr>count = 2, delta = 1\<rparr>"
  let ?r3 = "\<lparr>count = 3, delta = 2\<rparr>"
  have e12: "timeToSample ?t 12 = Num 4"
    using timeToSample_within [of ?t "[?r1]" ?r2 "[?r3]" 12]
    by (simp add: stts_example_def)
  have e19: "timeToSample ?t 19 = Num 8"
    using timeToSample_within [of ?t "[?r1, ?r2]" ?r3 "[]" 19]
    by (simp add: stts_example_def)
  have e0: "timeToSample ?t 0 = Num 0"
    using timeToSample_within [of ?t "[]" ?r1 "[?r2, ?r3]" 0]
    by (simp add: stts_example_def)
  have gen: "timeToSample t time
          = Num (of_nat ((\<Sum>r\<leftarrow>pre. count r)
                         + (time - (\<Sum>r\<leftarrow>pre. count r * delta r)) div delta row))"
    if "stts_table t = pre @ row # post"
      and "(\<Sum>r\<leftarrow>pre. count r * delta r) \<le> time"
      and "time < (\<Sum>r\<leftarrow>pre. count r * delta r) + count row * delta row"
      and "time < 2 ^ 53"
      and "(\<Sum>r\<leftarrow>pre. count r)
            + (time - (\<Sum>r\<leftarrow>pre. count r * delta r)) div delta row < 2 ^ 53"
    using that by (rule timeToSample_within)
  have zero: "timeToSample t 0 = Num 0"
    if "stts_table t = row0 # post0" and "0 < count row0 * delta row0"
    using that timeToSample_within [of t "[]" row0 post0 0]
    by simp
  from e12 e19 e0 gen zero show ?thesis by blast
qed

theorem timeToSample_within_row_witness:
  "stts_table example_track = [\<lparr>count = 4, delta = 3\<rparr>] @ \<lparr>count = 2, delta = 1\<rparr> # [\<lparr>count = 3, delta = 2\<rparr>]
   \<and> (\<Sum>r\<leftarrow>[\<lparr>count = 4, delta = 3\<rparr>]. count r * delta r) \<le> 13
   \<and> 13 < (\<Sum>r\<leftarrow>[\<lparr>count = 4, delta = 3\<rparr>]. count r * delta r) + 2 * 1
   \<and> (13::nat) < 2 ^ 53
   \<and> (\<Sum>r\<leftarrow>[\<lparr>count = 4, delta = 3\<rparr>]. count r)
       + (13 - (\<Sum>r\<leftarrow>[\<lparr>count = 4, delta = 3\<rparr>]. count r * delta r)) div 1 < 2 ^ 53
   \<and> timeToSample example_track 13 = Num 5
   \<and> timeToSample example_track 0 = Num 0"
  using timeToSample_within_row [where t = example_track and pre = "[\<lparr>count = 4, delta = 3\<rparr>]"
      and row = "\<lparr>count = 2, delta = 1\<rparr>" and post = "[\<lparr>count = 3, delta = 2\<rparr>]"
      and time = 13 and ?row0.0 = "\<lparr>count = 4, delta = 3\<rparr>"
      and ?post0.0 = "[\<lparr>count = 2, delta = 1\<rparr>, \<lparr>count = 3, delta = 2\<rparr>]"]
  by (simp add: example_track_def stts_example_def)

text \<open>
  C5 as stated fails. Tick 0 is not always in sample 0: after a first row of three samples
  of duration 0 it is in sample 3, and with an empty table there is no sample. And the
  walk is not the exact one: with the single row of 4294967295 samples of duration
  4294967295, the time 18446744065119617024 is one tick less than \<open>count * delta\<close> and so
  falls within the row, but the product is rounded to that very time, the row is
  subtracted and the result is \<open>undefined\<close>, not 4294967294.
\<close>

theorem timeToSample_zero_and_rounding:
  "timeToSample (example_track\<lparr>stts_table := [\<lparr>count = 3, delta = 0\<rparr>, \<lparr>count = 2, delta = 5\<rparr>]\<rparr>) 0
     = Num 3
   \<and> timeToSample (example_track\<lparr>stts_table := []\<rparr>) 0 = Undefined
   \<and> (18446744065119617024::nat) < 4294967295 * 4294967295
   \<and> 18446744065119617024 div 4294967295 = (4294967294::nat)
   \<and> timeToSample (example_track\<lparr>stts_table := [\<lparr>count = 4294967295, delta = 4294967295\<rparr>]\<rparr>)
         18446744065119617024
       = Undefined"
  by (simp add: timeToSample_def js_nat_exact js_round_0 js_nat_examples)

text \<open>
  C10, as the code has it. When the total of \<open>count * delta\<close> over all \<open>stts\<close> rows is
  below \<open>2 ^ 53\<close>, every time at or beyond that total makes the loop subtract every row and
  end without a \<open>return\<close>: \<open>timeToSample\<close> yields \<open>undefined\<close>, no sample index, no
  clamping to the last sample, no error.
\<close>

theorem timeToSample_beyond_total:
  "(\<Sum>r\<leftarrow>stts_table t. count r * delta r) < 2 ^ 53 \<Longrightarrow>
   (\<Sum>r\<leftarrow>stts_table t. count r * delta r) \<le> time \<Longrightarrow>
   timeToSample t time = Undefined"
  by (simp add: timeToSample_def timeToSample_loop_beyond js_nat_ge)

theorem timeToSample_beyond_total_witness:
  "(\<Sum>r\<leftarrow>stts_table example_track. count r * delta r) < 2 ^ 53
   \<and> (\<Sum>r\<leftarrow>stts_table example_track. count r * delta r) \<le> 20
   \<and> timeToSample example_track 20 = Undefined"
  using timeToSample_beyond_total [of example_track 20]
  by (simp add: example_track_def stts_example_def)

text \<open>
  C10 as stated fails. The rows of 94906267 samples of duration 94906269 and of one sample
  of duration 1 total 9007199705687824, above \<open>2 ^ 53\<close>. The first product,
  9007199705687823, is not a double and is rounded up to the total; at the time
  9007199705687824 the first row is subtracted, nothing is left for the second, and
  \<open>timeToSample\<close> returns the sample 94906267 instead of \<open>undefined\<close>.
\<close>

theorem timeToSample_rounded_total:
  "(\<Sum>r\<leftarrow>[\<lparr>count = 94906267, delta = 94906269\<rparr>, \<lparr>count = 1, delta = 1\<rparr>]. count r * delta r)
     = 9007199705687824
   \<and> timeToSample
         (example_track\<lparr>stts_table := [\<lparr>count = 94906267, delta = 94906269\<rparr>, \<lparr>count = 1, delta = 1\<rparr>]\<rparr>)
         9007199705687824
       = Num 94906267"
  by (simp add: timeToSample_def js_nat_exact js_round_0 js_nat_examples)

section \<open>Sizes and offsets out of range\<close>

lemma js_floor_div:
  "0 < b \<Longrightarrow> js_floor (js_div a b) = Num (of_nat (a div b))"
  by (simp add: js_div_def floor_divide_of_nat_eq)

lemma sampleToSize_loop_NaN: "sampleToSize_loop table i n NaN = NaN"
  by (induction n arbitrary: i) simp_all

lemma sampleToSize_loop_past:
  "0 < n \<Longrightarrow> int (length table) < i + int n \<Longrightarrow>
   sampleToSize_loop table i n (Num a) = NaN"
proof (induction n arbitrary: i a)
  case 0
  then show ?case by simp
next
  case (Suc n)
  show ?case
  proof (cases "0 \<le> i \<and> i < int (length table)")
    case True
    with Suc.prems have "0 < n" and "int (length table) < (i + 1) + int n" by simp_all
    then have "sampleToSize_loop table (i + 1) n (Num (a + of_nat (table ! nat i))) = NaN"
      by (rule Suc.IH)
    with True show ?thesis by (simp add: js_at_def)
  next
    case False
    then show ?thesis by (auto simp add: js_at_def sampleToSize_loop_NaN)
  qed
qed

text \<open>Sizes and offsets are natural numbers or NaN: nothing is lost when
  \<open>getSampleNALUnits\<close> starts its loop from them.\<close>

lemma sampleToSize_loop_value:
  "sampleToSize_loop table i n (Num (of_nat a)) = NaN
   \<or> (\<exists>k. sampleToSize_loop table i n (Num (of_nat a)) = Num (of_nat k))"
proof (induction n arbitrary: i a)
  case 0
  then show ?case by auto
next
  case (Suc n)
  show ?case
  proof (cases "0 \<le> i \<and> i < int (length table)")
    case True
    then have "js_add (Num (of_nat a)) (js_at table i) = Num (of_nat (a + table ! nat i))"
      by (simp add: js_at_def)
    with Suc.IH [of "i + 1" "a + table ! nat i"] show ?thesis by simp
  next
    case False
    then show ?thesis by (auto simp add: js_at_def sampleToSize_loop_NaN)
  qed
qed

lemma sampleToSize_value:
  "sampleToSize t start len = Inr v \<Longrightarrow> v = NaN \<or> (\<exists>k. v = Num (of_nat k))"
  using sampleToSize_loop_value [of _ start len 0]
  by (auto simp add: sampleToSize_def split: if_splits option.splits) 

lemma js_index_value:
  "js_index table v = Undefined \<or> (\<exists>k. js_index table v = Num (of_nat k))"
  by (cases v) (auto simp add: js_at_def)

lemma js_add_value:
  "a = Undefined \<or> (\<exists>k. a = Num (of_nat k)) \<Longrightarrow> b = NaN \<or> (\<exists>k. b = Num (of_nat k)) \<Longrightarrow>
   js_add a b = NaN \<or> (\<exists>k. js_add a b = Num (of_nat k))"
  by (auto simp add: of_nat_add [symmetric] simp del: of_nat_add) 

lemma sampleToOffset_value:
  assumes "sampleToOffset t sample = (Inr v, con)"
  shows "v = NaN \<or> (\<exists>k. v = Num (of_nat k))"
proof -
  obtain r c where sc: "sampleToChunk (stsc_table t) sample = (r, c)"
    by (cases "sampleToChunk (stsc_table t) sample")
  with assms obtain res where r: "r = Some res"
    by (cases r) (simp_all add: sampleToOffset_def)
  let ?off = "chunkToOffset t (index res)"
  have off: "?off = Undefined \<or> (\<exists>k. ?off = Num (of_nat k))"
    by (simp add: chunkToOffset_def js_index_value)
  have zero: "Num 0 = NaN \<or> (\<exists>k. Num 0 = Num (rat_of_nat k))"
    by (auto intro: exI [of _ 0])
  show ?thesis
  proof (cases "offset res")
    case (Num q)
    with assms sc r obtain sz
      where sz: "sampleToSize t (int sample - \<lfloor>q\<rfloor>) (nat \<lfloor>q\<rfloor>) = Inr sz"
        and v: "v = js_add ?off sz"
      by (auto simp add: sampleToOffset_def Let_def split: sum.splits)
    from js_add_value [OF off sampleToSize_value [OF sz]] v show ?thesis by simp
  next
    case Infinity
    with assms sc r have "v = js_add ?off (Num 0)"
      by (simp add: sampleToOffset_def Let_def)
    with js_add_value [OF off zero] show ?thesis by simp
  next
    case NaN
    with assms sc r have "v = js_add ?off (Num 0)"
      by (simp add: sampleToOffset_def Let_def)
    with js_add_value [OF off zero] show ?thesis by simp
  next
    case Undefined
    with assms sc r have "v = js_add ?off (Num 0)"
      by (simp add: sampleToOffset_def Let_def)
    with js_add_value [OF off zero] show ?thesis by simp
  qed
qed

text \<open>
  A start below zero: with the \<open>stsc\<close> rows (1, 1), (5, 3), (3, 100), whose third row
  starts before the second, sample 4 is taken to chunk 2 at position 6, the sizes are
  summed from index \<open>4 - 6\<close>, the read of \<open>table[-2]\<close> is \<open>undefined\<close>, and the offset is
  NaN.
\<close>

lemma sampleToOffset_negative_start:
  "sampleToOffset
     (example_track
        \<lparr>stsc_table := [\<lparr>firstChunk = 1, samplesPerChunk = 1, sampleDescriptionId = 1\<rparr>,
                        \<lparr>firstChunk = 5, samplesPerChunk = 3, sampleDescriptionId = 1\<rparr>,
                        \<lparr>firstChunk = 3, samplesPerChunk = 100, sampleDescriptionId = 1\<rparr>],
          stco_table := [3, 14, 25, 36]\<rparr>) 4
   = (Inr NaN, [])"
  by (simp add: sampleToOffset_def sampleToChunk_def js_floor_div js_mod_def chunkToOffset_def
      js_at_def sampleToSize_def getSampleSizeTable_def example_track_def Let_def
      sampleToSize_loop_past)




section \<open>Uniform sample sizes\<close>

text \<open>
  C9. An \<open>stsz\<close> box with the uniform sample size 4 and a declared count of 3 is parsed
  into a box without a table: the count is read and dropped. On a track with that box,
  \<open>getSampleCount\<close> throws a TypeError instead of returning 3, and so does the size of
  sample 0 instead of being 4.
\<close>

theorem uniform_stsz_TypeError:
  "(let b = \<lparr>stsz_offset = 0, stsz_size = 20, stsz_type = ''stsz'',
              stsz_name = ''Sample Size Box'', stsz_version = 0, stsz_flags = 0,
              stsz_sampleSize = 4, stsz_table = None\<rparr>
    in readBox \<lparr>bytes = uniform_stsz_bytes, position = 0\<rparr> []
         = Inr (Stsz b, \<lparr>bytes = uniform_stsz_bytes, position = 20\<rparr>, [])
       \<and> getSampleCount (example_track\<lparr>trak_stsz := b\<rparr>) = Inl TypeError
       \<and> sampleToSize (example_track\<lparr>trak_stsz := b\<rparr>) 0 1 = Inl TypeError)"
  by (simp add: Let_def readBox_def readBox_stsz_def readFullHeader_def readU32_def
      readU8_def readU24_def readUN_def readU8Array_def read4CC_def andThen_def be_nat_def
      uniform_stsz_bytes_def getSampleCount_def getSampleSizeTable_def sampleToSize_def
      fourcc_chars)

lemma readBox_stsz_uniform:
  assumes "position s + 20 \<le> length (bytes s)"
    and "take 4 (drop (position s + 4) (bytes s)) = [0x73, 0x74, 0x73, 0x7A]"
    and "be_nat (take 4 (drop (position s + 12) (bytes s))) \<noteq> 0"
    and "readBox s con = Inr (Stsz b, s', con')"
  shows "stsz_table b = None"
    and "getSampleCount (t\<lparr>trak_stsz := b\<rparr>) = Inl TypeError"
    and "0 < len \<Longrightarrow> sampleToSize (t\<lparr>trak_stsz := b\<rparr>) start len = Inl TypeError"
proof -
  have hd: "readU32 s = Inr (be_nat (take 4 (drop (position s) (bytes s))), s\<lparr>position := position s + 4\<rparr>)"
    using assms(1) by (simp add: readU32_def readUN_ok)
  have cc: "read4CC (s\<lparr>position := position s + 4\<rparr>) = Inr (''stsz'', s\<lparr>position := position s + 8\<rparr>)"
    using assms(1,2) by (simp add: read4CC_ok fourcc_chars)
  from assms(1,3,4) show tb: "stsz_table b = None"
    by (auto simp add: readBox_def Let_def hd cc andThen_def readBox_stsz_def readFullHeader_ok
        readU32_def readUN_ok ac_simps)
  then show "getSampleCount (t\<lparr>trak_stsz := b\<rparr>) = Inl TypeError"
    by (simp add: getSampleCount_def getSampleSizeTable_def)
  from tb show "0 < len \<Longrightarrow> sampleToSize (t\<lparr>trak_stsz := b\<rparr>) start len = Inl TypeError"
    by (simp add: sampleToSize_def getSampleSizeTable_def)
qed

section \<open>NAL units\<close>

lemma getSampleNALUnits_loop_done:
  "fin \<le> off \<Longrightarrow> getSampleNALUnits_loop bs fin off nalUnits = Inr (nalUnits, off)"
  by (subst getSampleNALUnits_loop.simps) simp

lemma getSampleNALUnits_loop_round:
  "off < fin \<Longrightarrow> readU32 \<lparr>bytes = bs, position = off\<rparr> = Inr (len, s') \<Longrightarrow>
   getSampleNALUnits_loop bs fin off nalUnits
     = getSampleNALUnits_loop bs fin (off + len + 4)
         (nalUnits @ [subarray bs (off + 4) (off + len + 4)])"
  by (subst getSampleNALUnits_loop.simps) simp

lemma getSampleNALUnits_rounds_loop:
  "getSampleNALUnits_rounds bs fin k (off0, units0) = Some (off, nalUnits) \<Longrightarrow>
   getSampleNALUnits_loop bs fin off0 units0 = getSampleNALUnits_loop bs fin off nalUnits"
proof (induction k arbitrary: off0 units0)
  case 0
  then show ?case by simp
next
  case (Suc k)
  from Suc.prems have lt: "off0 < fin"
    by (simp split: if_splits)
  from Suc.prems lt obtain len s' where
    rd: "readU32 \<lparr>bytes = bs, position = off0\<rparr> = Inr (len, s')"
    and rest: "getSampleNALUnits_rounds bs fin k
                 (off0 + len + 4, units0 @ [subarray bs (off0 + 4) (off0 + len + 4)])
               = Some (off, nalUnits)"
    by (auto split: sum.splits)
  from Suc.IH [OF rest] getSampleNALUnits_loop_round [OF lt rd]
  show ?case by simp
qed



text \<open>
  C3, as the code has it. \<open>getSampleNALUnits\<close> never compares a length prefix with the
  end of the sample. Let the sample start at \<open>a\<close> and have \<open>n\<close> bytes, and let the loop
  have reached the position \<open>off\<close> inside the sample with the units \<open>nalUnits\<close>
  collected. If the prefix read there announces \<open>len\<close> bytes and \<open>off + 4 + len\<close> is
  beyond the end \<open>a + n\<close>, the bytes from \<open>off + 4\<close> up to \<open>off + 4 + len\<close> are pushed
  as a unit all the same, cut off where the file ends: the unit has \<open>len\<close> bytes, or
  as many as the file has left after the prefix if these are fewer. Then the loop ends,
  and the units are returned as for any other sample.
\<close>

theorem getSampleNALUnits_overrun_returns:
  assumes "sampleToOffset t sample = (Inr (Num (of_nat a)), con)"
    and "sampleToSize t (int sample) 1 = Inr (Num (of_nat n))"
    and "getSampleNALUnits_rounds (file_stream_bytes t) (a + n) k (a, []) = Some (off, nalUnits)"
    and "off < a + n"
    and "readU32 \<lparr>bytes = file_stream_bytes t, position = off\<rparr> = Inr (len, s')"
    and "a + n < off + 4 + len"
  shows "getSampleNALUnits t sample
         = (Inr (nalUnits @ [subarray (file_stream_bytes t) (off + 4) (off + len + 4)]), con)
         \<and> length (subarray (file_stream_bytes t) (off + 4) (off + len + 4))
             = min len (length (file_stream_bytes t) - (off + 4))"
proof -
  let ?bs = "file_stream_bytes t"
  have "getSampleNALUnits_loop ?bs (a + n) a []
        = getSampleNALUnits_loop ?bs (a + n) off nalUnits"
    by (rule getSampleNALUnits_rounds_loop [OF assms(3)])
  also have "\<dots> = getSampleNALUnits_loop ?bs (a + n) (off + len + 4)
                     (nalUnits @ [subarray ?bs (off + 4) (off + len + 4)])"
    by (rule getSampleNALUnits_loop_round [OF assms(4) assms(5)])
  also have "\<dots> = Inr (nalUnits @ [subarray ?bs (off + 4) (off + len + 4)], off + len + 4)"
    using assms(6) by (simp add: getSampleNALUnits_loop_done)
  finally have "getSampleNALUnits t sample
         = (Inr (nalUnits @ [subarray (file_stream_bytes t) (off + 4) (off + len + 4)]), con)"
    using assms(1,2) by (simp add: getSampleNALUnits_def nat_int_add)
  then show ?thesis
    by (simp add: subarray_def)
qed

lemma overrun_track_sample0:
  "sampleToOffset overrun_track 0 = (Inr (Num (of_nat 0)), [])"
  "sampleToSize overrun_track (int 0) 1 = Inr (Num (of_nat 11))"
  by (simp_all add: sampleToOffset_def sampleToChunk_def assert_def js_div_def js_mod_def
      chunkToOffset_def js_at_def sampleToSize_def getSampleSizeTable_def overrun_track_def)

lemma overrun_track_reads:
  "readU32 \<lparr>bytes = file_stream_bytes overrun_track, position = 0\<rparr>
     = Inr (1, \<lparr>bytes = file_stream_bytes overrun_track, position = 4\<rparr>)"
  "readU32 \<lparr>bytes = file_stream_bytes overrun_track, position = 5\<rparr>
     = Inr (9, \<lparr>bytes = file_stream_bytes overrun_track, position = 9\<rparr>)"
  by (simp_all add: readU32_def readUN_def readU8Array_def andThen_def be_nat_def overrun_track_def)

theorem getSampleNALUnits_overrun_returns_witness:
  "sampleToOffset overrun_track 0 = (Inr (Num (of_nat 0)), [])
   \<and> sampleToSize overrun_track 0 1 = Inr (Num (of_nat 11))
   \<and> getSampleNALUnits_rounds (file_stream_bytes overrun_track) (0 + 11) 1 (0, [])
       = Some (5, [[0xAA]])
   \<and> (5::nat) < 0 + 11
   \<and> readU32 \<lparr>bytes = file_stream_bytes overrun_track, position = 5\<rparr>
       = Inr (9, \<lparr>bytes = file_stream_bytes overrun_track, position = 9\<rparr>)
   \<and> (0::nat) + 11 < 5 + 4 + 9
   \<and> getSampleNALUnits overrun_track 0
       = (Inr [[0xAA], [0xBB, 0xCC, 0, 0, 0, 3, 0xD1, 0xD2, 0xD3]], [])"
proof -
  have r: "getSampleNALUnits_rounds (file_stream_bytes overrun_track) (0 + 11) 1 (0, [])
       = Some (5, [[0xAA]])"
    by (simp add: overrun_track_reads) (simp add: subarray_def overrun_track_def)
  have sub: "subarray (file_stream_bytes overrun_track) (5 + 4) (5 + 9 + 4)
        = [0xBB, 0xCC, 0, 0, 0, 3, 0xD1, 0xD2, 0xD3]"
    by (simp add: subarray_def overrun_track_def)
  from getSampleNALUnits_overrun_returns [OF overrun_track_sample0 r _ overrun_track_reads(2)]
  have "getSampleNALUnits overrun_track 0
       = (Inr ([[0xAA]] @ [subarray (file_stream_bytes overrun_track) (5 + 4) (5 + 9 + 4)]), [])"
    by simp
  with sub r overrun_track_sample0 overrun_track_reads(2) show ?thesis by simp
qed

text \<open>
  C3 as stated fails: sample 0 of the track is declared with 11 bytes, its second prefix
  at byte 5 announces 9 bytes, and \<open>getSampleNALUnits\<close> returns two units, the second
  running on into the next sample; the loop ends at byte 18, beyond the end 11.
\<close>

theorem getSampleNALUnits_overrun_normal_return:
  "sampleToOffset overrun_track 0 = (Inr (Num 0), [])
   \<and> sampleToSize overrun_track 0 1 = Inr (Num 11)
   \<and> readU32 \<lparr>bytes = file_stream_bytes overrun_track, position = 5\<rparr>
       = Inr (9, \<lparr>bytes = file_stream_bytes overrun_track, position = 9\<rparr>)
   \<and> getSampleNALUnits_loop (file_stream_bytes overrun_track) 11 0 []
       = Inr ([[0xAA], [0xBB, 0xCC, 0, 0, 0, 3, 0xD1, 0xD2, 0xD3]], 18)
   \<and> getSampleNALUnits overrun_track 0
       = (Inr [[0xAA], [0xBB, 0xCC, 0, 0, 0, 3, 0xD1, 0xD2, 0xD3]], [])"
proof -
  let ?bs = "file_stream_bytes overrun_track"
  have "getSampleNALUnits_loop ?bs 11 0 []
        = getSampleNALUnits_loop ?bs 11 (0 + 1 + 4) ([] @ [subarray ?bs (0 + 4) (0 + 1 + 4)])"
    by (rule getSampleNALUnits_loop_round [OF _ overrun_track_reads(1)]) simp
  also have "\<dots> = getSampleNALUnits_loop ?bs 11 5 [[0xAA]]"
    by (simp add: subarray_def overrun_track_def)
  also have "\<dots> = getSampleNALUnits_loop ?bs 11 (5 + 9 + 4)
                      ([[0xAA]] @ [subarray ?bs (5 + 4) (5 + 9 + 4)])"
    by (rule getSampleNALUnits_loop_round [OF _ overrun_track_reads(2)]) simp
  also have "\<dots> = getSampleNALUnits_loop ?bs 11 18
                      [[0xAA], [0xBB, 0xCC, 0, 0, 0, 3, 0xD1, 0xD2, 0xD3]]"
    by (simp add: subarray_def overrun_track_def)
  also have "\<dots> = Inr ([[0xAA], [0xBB, 0xCC, 0, 0, 0, 3, 0xD1, 0xD2, 0xD3]], 18)"
    by (simp add: getSampleNALUnits_loop_done)
  finally have loop: "getSampleNALUnits_loop ?bs 11 0 []
        = Inr ([[0xAA], [0xBB, 0xCC, 0, 0, 0, 3, 0xD1, 0xD2, 0xD3]], 18)" .
  have off: "sampleToOffset overrun_track 0 = (Inr (Num 0), [])"
    and sz: "sampleToSize overrun_track 0 1 = Inr (Num 11)"
    using overrun_track_sample0 by simp_all
  have "getSampleNALUnits overrun_track 0
       = (Inr [[0xAA], [0xBB, 0xCC, 0, 0, 0, 3, 0xD1, 0xD2, 0xD3]], [])"
    using off sz loop by (simp add: getSampleNALUnits_def)
  with loop off sz overrun_track_reads(2) show ?thesis by simp
qed



section \<open>The track header\<close>

lemma readBox_tkhd_ok:
  assumes "position s + 84 \<le> length (bytes s)"
  shows "readBox_tkhd b_offset b_size b_type s con =
     Inr (Tkhd \<lparr>tkhd_offset = b_offset, tkhd_size = b_size, tkhd_type = b_type,
                 tkhd_name = ''Track Header Box'',
                 tkhd_version = be_nat (take 1 (drop (position s) (bytes s))),
                 tkhd_flags = be_nat (take 3 (drop (position s + 1) (bytes s))),
                 tkhd_creationTime = be_nat (take 4 (drop (position s + 4) (bytes s))),
                 tkhd_modificationTime = be_nat (take 4 (drop (position s + 8) (bytes s))),
                 tkhd_trackId = be_nat (take 4 (drop (position s + 12) (bytes s))),
                 tkhd_duration = be_nat (take 4 (drop (position s + 20) (bytes s))),
                 tkhd_layer = be_nat (take 2 (drop (position s + 32) (bytes s))),
                 tkhd_alternateGroup = be_nat (take 2 (drop (position s + 34) (bytes s))),
                 tkhd_volume = of_nat (be_nat (take 2 (drop (position s + 36) (bytes s)))) / 256,
                 tkhd_matrix = map (\<lambda>k. be_nat (take 4 (drop (position s + 40 + 4 * k) (bytes s)))) [0..<9],
                 tkhd_width = of_nat (be_nat (take 4 (drop (position s + 76) (bytes s)))) / 65536,
                 tkhd_height = of_nat (be_nat (take 4 (drop (position s + 80) (bytes s)))) / 65536\<rparr>,
          s\<lparr>position := position s + 84\<rparr>,
          if be_nat (take 1 (drop (position s) (bytes s))) = 0 then con else con @ [None])"
  using assms
  by (simp add: readBox_tkhd_def readFullHeader_ok readU16_def readU32_def
      readFP8_def readFP16_def readUN_ok skip_ok readU32Array_ok andThen_def Let_def assert_def
      ac_simps)

text \<open>
  C7, as the code has it. A \<open>tkhd\<close> box with at least 92 bytes in the buffer is parsed
  the same way whatever its version byte: the fields are read at the offsets of the
  version-0 layout, the cursor ends 92 bytes after the start of the box, and the box is
  returned. A version other than 0, such as 1, only adds one message to the console.
\<close>

theorem readBox_tkhd_any_version:
  assumes "position s + 92 \<le> length (bytes s)"
    and "take 4 (drop (position s + 4) (bytes s)) = [0x74, 0x6B, 0x68, 0x64]"
  shows "readBox s con =
     Inr (Tkhd \<lparr>tkhd_offset = position s,
                 tkhd_size = be_nat (take 4 (drop (position s) (bytes s))),
                 tkhd_type = ''tkhd'',
                 tkhd_name = ''Track Header Box'',
                 tkhd_version = be_nat (take 1 (drop (position s + 8) (bytes s))),
                 tkhd_flags = be_nat (take 3 (drop (position s + 9) (bytes s))),
                 tkhd_creationTime = be_nat (take 4 (drop (position s + 12) (bytes s))),
                 tkhd_modificationTime = be_nat (take 4 (drop (position s + 16) (bytes s))),
                 tkhd_trackId = be_nat (take 4 (drop (position s + 20) (bytes s))),
                 tkhd_duration = be_nat (take 4 (drop (position s + 28) (bytes s))),
                 tkhd_layer = be_nat (take 2 (drop (position s + 40) (bytes s))),
                 tkhd_alternateGroup = be_nat (take 2 (drop (position s + 42) (bytes s))),
                 tkhd_volume = of_nat (be_nat (take 2 (drop (position s + 44) (bytes s)))) / 256,
                 tkhd_matrix = map (\<lambda>k. be_nat (take 4 (drop (position s + 48 + 4 * k) (bytes s)))) [0..<9],
                 tkhd_width = of_nat (be_nat (take 4 (drop (position s + 84) (bytes s)))) / 65536,
                 tkhd_height = of_nat (be_nat (take 4 (drop (position s + 88) (bytes s)))) / 65536\<rparr>,
          s\<lparr>position := position s + 92\<rparr>,
          if be_nat (take 1 (drop (position s + 8) (bytes s))) = 0 then con else con @ [None])"
proof -
  let ?s = "s\<lparr>position := position s + 8\<rparr>"
  have hd: "readU32 s = Inr (be_nat (take 4 (drop (position s) (bytes s))), s\<lparr>position := position s + 4\<rparr>)"
    using assms(1) by (simp add: readU32_def readUN_ok)
  have cc: "read4CC (s\<lparr>position := position s + 4\<rparr>) = Inr (''tkhd'', ?s)"
    using assms by (simp add: read4CC_ok fourcc_chars)
  have "position ?s + 84 \<le> length (bytes ?s)"
    using assms(1) by simp
  note body = readBox_tkhd_ok [OF this, of "position s" "be_nat (take 4 (drop (position s) (bytes s)))" "''tkhd''" con]
  show ?thesis
    by (simp add: readBox_def Let_def hd cc andThen_def body ac_simps)
qed

theorem readBox_tkhd_any_version_witness:
  "position \<lparr>bytes = tkhd_v1_bytes, position = 0\<rparr> + 92
     \<le> length (bytes \<lparr>bytes = tkhd_v1_bytes, position = 0\<rparr>)
   \<and> take 4 (drop (position \<lparr>bytes = tkhd_v1_bytes, position = 0\<rparr> + 4)
                 (bytes \<lparr>bytes = tkhd_v1_bytes, position = 0\<rparr>))
       = [0x74, 0x6B, 0x68, 0x64]
   \<and> be_nat (take 1 (drop 8 tkhd_v1_bytes)) = 1
   \<and> (case readBox \<lparr>bytes = tkhd_v1_bytes, position = 0\<rparr> [] of
         Inr (Tkhd b, s', con) \<Rightarrow>
           tkhd_version b = 1 \<and> tkhd_trackId b = be_nat (take 4 (drop 20 tkhd_v1_bytes))
           \<and> position s' = 92 \<and> con = [None]
       | _ \<Rightarrow> False)"
proof -
  let ?s = "\<lparr>bytes = tkhd_v1_bytes, position = 0\<rparr>"
  have h1: "position ?s + 92 \<le> length (bytes ?s)"
    by (simp add: tkhd_v1_bytes_def)
  have h2: "take 4 (drop (position ?s + 4) (bytes ?s)) = [0x74, 0x6B, 0x68, 0x64]"
    by (simp add: tkhd_v1_bytes_def)
  have v: "be_nat (take 1 (drop 8 tkhd_v1_bytes)) = 1"
    by (simp add: tkhd_v1_bytes_def be_nat_def)
  from readBox_tkhd_any_version [OF h1 h2, of "[]"] v h1 h2 show ?thesis
    by simp
qed

text \<open>
  C7 as stated fails: on a \<open>tkhd\<close> box of version 1 with track id 7, \<open>readBox\<close> returns
  a box after logging once. It has read the version-0 offsets: the track id is 0 (the
  upper half of the modification time), the duration is 7 (the real track id), width and
  height are 0, and the last 12 bytes of the box are left unread.
\<close>

theorem readBox_tkhd_version1_continues:
  "readBox \<lparr>bytes = tkhd_v1_bytes, position = 0\<rparr> [] =
     Inr (Tkhd \<lparr>tkhd_offset = 0, tkhd_size = 104, tkhd_type = ''tkhd'',
                 tkhd_name = ''Track Header Box'', tkhd_version = 1, tkhd_flags = 1,
                 tkhd_creationTime = 0, tkhd_modificationTime = 3221225473,
                 tkhd_trackId = 0, tkhd_duration = 7, tkhd_layer = 0,
                 tkhd_alternateGroup = 42, tkhd_volume = 0,
                 tkhd_matrix = [0, 0, 16777216, 65536, 0, 0, 0, 65536, 0],
                 tkhd_width = 0, tkhd_height = 0\<rparr>,
          \<lparr>bytes = tkhd_v1_bytes, position = 92\<rparr>, [None])"
  by (simp add: readBox_def readBox_tkhd_def readFullHeader_def readU8_def readU16_def
      readU24_def readU32_def readFP8_def readFP16_def readUN_def skip_def readU8Array_def
      readU32Array_def read4CC_def andThen_def Let_def assert_def be_nat_def fourcc_chars
      tkhd_v1_bytes_def upt_0_9)
end
